theory Spec2Isabelle
  imports Main
begin

section \<open>Process supervision (src/electron/processes.ts)\<close>

text \<open>
  A child process object returned by \<^verbatim>\<open>spawn\<close> is identified by a number, a callback
  handed in by the caller (the exit listener) by another. What the supervisor does to the
  outside world is appended, in program order, to a trace kept with its fields. The entry
  for a call of the exit listener records the value of \<^verbatim>\<open>this.process\<close> at the moment
  of the call, which is what the listener can observe on entry.
\<close>

type_synonym pid = nat
type_synonym callback = nat

datatype child_event = ChildError | ChildExit

datatype proc_effect =
    Spawn pid string "string list"
  | Kill pid
  | ExitListenerCalled callback "pid option"

text \<open>
  \<^verbatim>\<open>class SingletonProcess\<close>: the fields \<open>path\<close>, \<open>process\<close> and \<open>exitListener\<close>
  are the class's own. \<open>child_listeners\<close> holds, for every child process object, the
  events on which \<^verbatim>\<open>onExit\<close> is currently registered; \<open>next_pid\<close> numbers the objects
  \<^verbatim>\<open>spawn\<close> returns.
\<close>

record singletonProcess =
  path :: string
  process :: "pid option"
  exitListener :: "callback option"
  child_listeners :: "pid \<Rightarrow> child_event set"
  next_pid :: pid
  proc_trace :: "proc_effect list"

definition setExitListener ::
  "callback option \<Rightarrow> 'a singletonProcess_scheme \<Rightarrow> 'a singletonProcess_scheme" where
  "setExitListener newListener s = s\<lparr>exitListener := newListener\<rparr>"

text \<open>The closure \<^verbatim>\<open>onExit\<close> of \<^verbatim>\<open>startInternal\<close>.\<close>

definition onExit :: "'a singletonProcess_scheme \<Rightarrow> 'a singletonProcess_scheme" where
  "onExit s =
     (let s1 = (case process s of
                  Some p \<Rightarrow> s\<lparr>child_listeners := (child_listeners s)(p := {}), process := None\<rparr>
                | None \<Rightarrow> s)
      in case exitListener s1 of
           Some l \<Rightarrow> s1\<lparr>proc_trace := proc_trace s1 @ [ExitListenerCalled l (process s1)]\<rparr>
         | None \<Rightarrow> s1)"

definition startInternal ::
  "string list \<Rightarrow> 'a singletonProcess_scheme \<Rightarrow> 'a singletonProcess_scheme" where
  "startInternal args s =
     (let p = next_pid s
      in s\<lparr>process := Some p,
            next_pid := Suc p,
            proc_trace := proc_trace s @ [Spawn p (path s) args],
            child_listeners := (child_listeners s)(p := {ChildError, ChildExit})\<rparr>)"

definition stop :: "'a singletonProcess_scheme \<Rightarrow> 'a singletonProcess_scheme" where
  "stop s =
     (case process s of
        Some p \<Rightarrow> s\<lparr>proc_trace := proc_trace s @ [Kill p]\<rparr>
      | None \<Rightarrow> s)"

text \<open>
  The child process object \<open>p\<close> emits \<open>ev\<close>: the handler registered for it runs, and
  nothing of the supervisor changes when none is registered.
\<close>

definition child_emit ::
  "pid \<Rightarrow> child_event \<Rightarrow> 'a singletonProcess_scheme \<Rightarrow> 'a singletonProcess_scheme" where
  "child_emit p ev s = (if ev \<in> child_listeners s p then onExit s else s)"

subsection \<open>Numbers and optional strings as JavaScript prints them\<close>

text \<open>
  Port numbers are integers; \<^verbatim>\<open>Number.prototype.toString\<close> and string concatenation print
  an integer of magnitude below \<open>10^21\<close> in decimal, which is what \<open>number_toString\<close>
  computes.
\<close>

fun digits :: "nat \<Rightarrow> string" where
  "digits n =
     (if n < 10 then [''0123456789'' ! n]
      else digits (n div 10) @ [''0123456789'' ! (n mod 10)])"

declare digits.simps [simp del]

definition number_toString :: "int \<Rightarrow> string" where
  "number_toString i = (if i < 0 then CHR ''-'' # digits (nat (- i)) else digits (nat i))"

text \<open>\<^verbatim>\<open>v || ''\<close> on an optional string: \<^verbatim>\<open>undefined\<close> and the empty string are falsy.\<close>

definition or_empty :: "string option \<Rightarrow> string" where
  "or_empty v = (case v of None \<Rightarrow> '''' | Some x \<Rightarrow> (if x = '''' then '''' else x))"

text \<open>\<^verbatim>\<open>'' + v\<close> on an optional number.\<close>

definition concat_number :: "int option \<Rightarrow> string" where
  "concat_number v = (case v of None \<Rightarrow> ''undefined'' | Some n \<Rightarrow> number_toString n)"

subsection \<open>SsLocal\<close>

text \<open>
  \<^verbatim>\<open>cordova.plugins.outline.ServerConfig\<close> is declared outside this file; the four fields (\<open>method\<close> is written \<open>method'\<close> here)
  \<^verbatim>\<open>start\<close> reads are optional there.
\<close>

record serverConfig =
  host :: "string option" port :: "int option"
  password :: "string option" method' :: "string option"

record ssLocal = singletonProcess +
  proxyPort :: int

text \<open>
  The constructor; \<^verbatim>\<open>pathToEmbeddedBinary\<close> comes from \<^verbatim>\<open>./util\<close> and is a parameter.
\<close>

definition new_SsLocal :: "(string \<Rightarrow> string \<Rightarrow> string) \<Rightarrow> int \<Rightarrow> ssLocal" where
  "new_SsLocal pathToEmbeddedBinary proxyPort' =
     \<lparr>path = pathToEmbeddedBinary ''shadowsocks-libev'' ''ss-local'',
      process = None, exitListener = None, child_listeners = (\<lambda>_. {}),
      next_pid = 0, proc_trace = [], proxyPort = proxyPort'\<rparr>"

definition ssLocal_args :: "int \<Rightarrow> serverConfig \<Rightarrow> string list" where
  "ssLocal_args localPort config =
     [''-l'', number_toString localPort]
     @ [''-s'', or_empty (host config)]
     @ [''-p'', concat_number (port config)]
     @ [''-k'', or_empty (password config)]
     @ [''-m'', or_empty (method' config)]
     @ [''-t'', ''5'']
     @ [''-u'']"

definition ssLocal_start :: "serverConfig \<Rightarrow> ssLocal \<Rightarrow> ssLocal" where
  "ssLocal_start config s = startInternal (ssLocal_args (ssLocal.proxyPort s) config) s"

subsection \<open>Tun2socks\<close>

text \<open>
  \<^verbatim>\<open>os.platform()\<close> is read once when the module loads; its value is the parameter
  \<open>plat\<close> of everything that depends on it.
\<close>

definition isLinux :: "string \<Rightarrow> bool" where
  "isLinux plat = (plat = ''linux'')"

definition TUN2SOCKS_TAP_DEVICE_NAME :: "string \<Rightarrow> string" where
  "TUN2SOCKS_TAP_DEVICE_NAME plat = (if isLinux plat then ''outline-tun0'' else ''outline-tap0'')"

definition TUN2SOCKS_TAP_DEVICE_IP :: string where
  "TUN2SOCKS_TAP_DEVICE_IP = ''10.0.85.2''"

definition TUN2SOCKS_VIRTUAL_ROUTER_IP :: string where
  "TUN2SOCKS_VIRTUAL_ROUTER_IP = ''10.0.85.1''"

definition TUN2SOCKS_TAP_DEVICE_NETWORK :: string where
  "TUN2SOCKS_TAP_DEVICE_NETWORK = ''10.0.85.0''"

definition TUN2SOCKS_VIRTUAL_ROUTER_NETMASK :: string where
  "TUN2SOCKS_VIRTUAL_ROUTER_NETMASK = ''255.255.255.0''"

record tun2socks = singletonProcess +
  proxyAddress :: string
  proxyPort :: int

definition new_Tun2socks ::
  "(string \<Rightarrow> string \<Rightarrow> string) \<Rightarrow> string \<Rightarrow> int \<Rightarrow> tun2socks" where
  "new_Tun2socks pathToEmbeddedBinary proxyAddress' proxyPort' =
     \<lparr>path = pathToEmbeddedBinary ''badvpn'' ''badvpn-tun2socks'',
      process = None, exitListener = None, child_listeners = (\<lambda>_. {}),
      next_pid = 0, proc_trace = [],
      proxyAddress = proxyAddress', proxyPort = proxyPort'\<rparr>"

definition tun2socks_args :: "string \<Rightarrow> string \<Rightarrow> int \<Rightarrow> string list" where
  "tun2socks_args plat addr prt =
     [''--tundev'',
      (if isLinux plat then TUN2SOCKS_TAP_DEVICE_NAME plat
       else ''tap0901:'' @ TUN2SOCKS_TAP_DEVICE_NAME plat @ '':'' @ TUN2SOCKS_TAP_DEVICE_IP
            @ '':'' @ TUN2SOCKS_TAP_DEVICE_NETWORK @ '':'' @ TUN2SOCKS_VIRTUAL_ROUTER_NETMASK)]
     @ [''--netif-ipaddr'', TUN2SOCKS_VIRTUAL_ROUTER_IP]
     @ [''--netif-netmask'', TUN2SOCKS_VIRTUAL_ROUTER_NETMASK]
     @ [''--socks-server-addr'', addr @ '':'' @ number_toString prt]
     @ [''--loglevel'', ''error'']
     @ [''--transparent-dns'']
     @ [''--socks5-udp'']
     @ [''--udp-relay-addr'', addr @ '':'' @ number_toString prt]"

definition tun2socks_start :: "string \<Rightarrow> tun2socks \<Rightarrow> tun2socks" where
  "tun2socks_start plat s =
     startInternal (tun2socks_args plat (proxyAddress s) (tun2socks.proxyPort s)) s"

subsection \<open>What a supervisor goes through\<close>

text \<open>
  The calls a supervisor receives from its owner and the events its child process objects
  emit, in the order the event loop delivers them.
\<close>

datatype proc_call =
    CallStartInternal "string list"
  | CallStopProcess
  | CallSetExitListener "callback option"
  | EmitChild pid child_event

fun proc_step :: "proc_call \<Rightarrow> 'a singletonProcess_scheme \<Rightarrow> 'a singletonProcess_scheme" where
  "proc_step (CallStartInternal args) s = startInternal args s"
| "proc_step CallStopProcess s = stop s"
| "proc_step (CallSetExitListener l) s = setExitListener l s"
| "proc_step (EmitChild p ev) s = child_emit p ev s"

fun proc_run :: "proc_call list \<Rightarrow> 'a singletonProcess_scheme \<Rightarrow> 'a singletonProcess_scheme" where
  "proc_run [] s = s"
| "proc_run (c # cs) s = proc_run cs (proc_step c s)"

text \<open>
  The calls of the exit listener in a trace, in order: for each, the value of
  \<^verbatim>\<open>this.process\<close> it found.
\<close>

fun exit_calls :: "proc_effect list \<Rightarrow> pid option list" where
  "exit_calls [] = []"
| "exit_calls (ExitListenerCalled l h # t) = h # exit_calls t"
| "exit_calls (Spawn p pth args # t) = exit_calls t"
| "exit_calls (Kill p # t) = exit_calls t"

fun is_start :: "proc_call \<Rightarrow> bool" where
  "is_start (CallStartInternal args) = True"
| "is_start CallStopProcess = False"
| "is_start (CallSetExitListener l) = False"
| "is_start (EmitChild p ev) = False"

fun is_child_event :: "pid \<Rightarrow> proc_call \<Rightarrow> bool" where
  "is_child_event p (EmitChild q ev) = (q = p)"
| "is_child_event p (CallStartInternal args) = False"
| "is_child_event p CallStopProcess = False"
| "is_child_event p (CallSetExitListener l) = False"

definition fresh_supervisor :: "string \<Rightarrow> singletonProcess" where
  "fresh_supervisor pth =
     \<lparr>path = pth, process = None, exitListener = None, child_listeners = (\<lambda>_. {}),
      next_pid = 0, proc_trace = []\<rparr>"

text \<open>
  Two situations of a supervisor: no child process object has a handler and no handle is
  held (as when it is created, and after a child has exited); or the handle is \<open>p\<close>
  and \<open>p\<close> alone has the two handlers (as right after a start).
\<close>

definition handlers_cleared :: "'a singletonProcess_scheme \<Rightarrow> bool" where
  "handlers_cleared s = (process s = None \<and> child_listeners s = (\<lambda>_. {}))"

definition handlers_on :: "pid \<Rightarrow> 'a singletonProcess_scheme \<Rightarrow> bool" where
  "handlers_on p s =
     (process s = Some p \<and> child_listeners s = (\<lambda>_. {})(p := {ChildError, ChildExit}))"

definition supervisor_with_listener :: singletonProcess where
  "supervisor_with_listener = setExitListener (Some 7) (fresh_supervisor ''ss-local'')"

section \<open>The routing service client (src/electron/routing.ts)\<close>

text \<open>
  Sockets, promises and the caller's callbacks are identified by numbers. A promise is
  identified with its pair of settling closures \<^verbatim>\<open>F\<close> and \<^verbatim>\<open>R\<close>: calling either
  settles the promise when it is still pending and does nothing otherwise, as JavaScript
  promises do. The value a promise is fulfilled with is a socket (\<^verbatim>\<open>getSocket\<close>) or
  \<^verbatim>\<open>undefined\<close> (\<^verbatim>\<open>start\<close>, \<^verbatim>\<open>stop\<close>).

  \<^verbatim>\<open>start\<close> and \<^verbatim>\<open>stop\<close> are \<^verbatim>\<open>async\<close> functions: what their caller holds is not the
  promise they create with \<^verbatim>\<open>new Promise\<close> and return, but the promise of the call itself,
  which follows the returned one. These promises of calls are numbered apart. When a
  promise with followers is settled, the settling of each follower is queued as a
  microtask; it happens only after the code that is running has returned.
\<close>

type_synonym sock = nat
type_synonym promise = nat
type_synonym async_promise = nat

datatype error =
    UnsupportedRoutingTable "string option"
  | ConfigureSystemProxyFailure "string option"
  | SystemConfigurationException
  | Error string

datatype settlement = Pending | Fulfilled "sock option" | Rejected error

datatype param = PString string | PBool bool

text \<open>\<^verbatim>\<open>interface RoutingServiceResponse\<close>, as \<^verbatim>\<open>JSON.parse\<close> delivers it.\<close>

record routingServiceResponse =
  action :: string
  statusCode :: int
  errorMessage :: "string option"
  connectionStatus :: int

text \<open>\<^verbatim>\<open>enum RoutingServiceAction\<close> and \<^verbatim>\<open>enum RoutingServiceStatusCode\<close>.\<close>

definition CONFIGURE_ROUTING :: string where
  "CONFIGURE_ROUTING = ''configureRouting''"

definition RESET_ROUTING :: string where
  "RESET_ROUTING = ''resetRouting''"

definition STATUS_CHANGED :: string where
  "STATUS_CHANGED = ''statusChanged''"

definition SUCCESS :: int where
  "SUCCESS = 0"

definition GENERIC_FAILURE :: int where
  "GENERIC_FAILURE = 1"

definition UNSUPPORTED_ROUTING_TABLE :: int where
  "UNSUPPORTED_ROUTING_TABLE = 2"

definition SERVICE_ADDRESS :: "string \<Rightarrow> string" where
  "SERVICE_ADDRESS plat =
     (if plat = ''win32'' then [CHR 0x5C, CHR 0x5C] @ ''.'' @ [CHR 0x5C] @ ''pipe''
                               @ [CHR 0x5C] @ ''OutlineServicePipe''
      else ''/var/run/outline_controller'')"

datatype socket_event_name = OnConnect | OnData | OnClose | OnError

datatype socket_event = Connect | Data routingServiceResponse | Close | SocketError

text \<open>
  What the client does to the outside world, in program order. A request is written as
  its action and its parameters. The entry for a call of the disconnection listener
  records the value of \<^verbatim>\<open>this.socket\<close> at the moment of the call. \<open>AsyncSettled\<close> is
  the settling of the promise of an \<^verbatim>\<open>async\<close> call: from then on the caller that awaits
  it has the outcome.
\<close>

datatype effect =
    ConsoleLog string
  | ConsoleError string
  | CreateConnection sock string
  | SocketWrite sock string "(string \<times> param) list"
  | SocketEnd sock
  | FulfillCalled promise "sock option"
  | RejectCalled promise error
  | DisconnectionListenerCalled callback "sock option"
  | AsyncSettled async_promise settlement

text \<open>
  \<^verbatim>\<open>class RoutingService\<close>: the first five fields are the class's own. Of the rest,
  \<open>platform\<close> is what \<^verbatim>\<open>os.platform()\<close> returned when the module was loaded,
  \<open>socket_listeners\<close> holds the events of each socket that currently have a handler,
  \<open>acquisition\<close> the promise that the \<^verbatim>\<open>getSocket\<close> call creating the socket returned,
  \<open>promises\<close> the state of every promise, \<open>async_promises\<close> the state of the promise of
  every call of \<^verbatim>\<open>start\<close> and \<^verbatim>\<open>stop\<close> that has returned, \<open>followers\<close> the promises of
  calls that follow a promise, and \<open>microtasks\<close> the queue of settlings still to be made.
\<close>

record routingService =
  socket :: "sock option"
  disconnectionListener :: "callback option"
  fulfillStart :: "promise option"
  rejectStart :: "promise option"
  fulfillStop :: "promise option"
  platform :: string
  socket_listeners :: "sock \<Rightarrow> socket_event_name set"
  acquisition :: "sock \<Rightarrow> promise"
  promises :: "promise \<Rightarrow> settlement"
  next_sock :: sock
  next_promise :: promise
  async_promises :: "async_promise \<Rightarrow> settlement"
  followers :: "promise \<Rightarrow> async_promise list"
  next_async :: async_promise
  microtasks :: "(async_promise \<times> settlement) list"
  trace :: "effect list"

definition new_RoutingService :: "string \<Rightarrow> routingService" where
  "new_RoutingService plat =
     \<lparr>socket = None, disconnectionListener = None, fulfillStart = None, rejectStart = None,
      fulfillStop = None, platform = plat, socket_listeners = (\<lambda>_. {}),
      acquisition = (\<lambda>_. 0), promises = (\<lambda>_. Pending), next_sock = 0, next_promise = 0,
      async_promises = (\<lambda>_. Pending), followers = (\<lambda>_. []), next_async = 0,
      microtasks = [], trace = []\<rparr>"

definition console_log :: "string \<Rightarrow> routingService \<Rightarrow> routingService" where
  "console_log m s = s\<lparr>trace := trace s @ [ConsoleLog m]\<rparr>"

definition console_error :: "string \<Rightarrow> routingService \<Rightarrow> routingService" where
  "console_error m s = s\<lparr>trace := trace s @ [ConsoleError m]\<rparr>"

definition socket_end :: "sock \<Rightarrow> routingService \<Rightarrow> routingService" where
  "socket_end k s = s\<lparr>trace := trace s @ [SocketEnd k]\<rparr>"

definition socket_write ::
  "sock \<Rightarrow> string \<Rightarrow> (string \<times> param) list \<Rightarrow> routingService \<Rightarrow> routingService" where
  "socket_write k act params s = s\<lparr>trace := trace s @ [SocketWrite k act params]\<rparr>"

definition settle :: "promise \<Rightarrow> settlement \<Rightarrow> routingService \<Rightarrow> routingService" where
  "settle p v s =
     s\<lparr>promises := (promises s)(p := (if promises s p = Pending then v else promises s p)),
       microtasks :=
         microtasks s
         @ (if promises s p = Pending then map (\<lambda>a. (a, v)) (followers s p) else [])\<rparr>"

text \<open>
  A queued settling runs: the promise of the call takes the outcome of the promise it
  follows.
\<close>

definition deliver :: "async_promise \<Rightarrow> settlement \<Rightarrow> routingService \<Rightarrow> routingService" where
  "deliver a v s =
     (if async_promises s a = Pending
      then s\<lparr>async_promises := (async_promises s)(a := v),
             trace := trace s @ [AsyncSettled a v]\<rparr>
      else s)"

definition run_microtask :: "routingService \<Rightarrow> routingService" where
  "run_microtask s =
     (case microtasks s of
        [] \<Rightarrow> s
      | (a, v) # rest \<Rightarrow> deliver a v (s\<lparr>microtasks := rest\<rparr>))"

definition call_fulfill :: "promise \<Rightarrow> sock option \<Rightarrow> routingService \<Rightarrow> routingService" where
  "call_fulfill p v s = settle p (Fulfilled v) (s\<lparr>trace := trace s @ [FulfillCalled p v]\<rparr>)"

definition call_reject :: "promise \<Rightarrow> error \<Rightarrow> routingService \<Rightarrow> routingService" where
  "call_reject p e s = settle p (Rejected e) (s\<lparr>trace := trace s @ [RejectCalled p e]\<rparr>)"

text \<open>
  The handler of \<^verbatim>\<open>'data'\<close> that \<^verbatim>\<open>getSocket\<close> registers on \<open>newSocket\<close>, applied to the
  parsed message. The logged text is written without the message it quotes.
\<close>

definition data_handler ::
  "sock \<Rightarrow> routingServiceResponse \<Rightarrow> routingService \<Rightarrow> routingService" where
  "data_handler newSocket responseFromService s0 =
     (let s = console_log ''received message from routing service'' s0
      in if action responseFromService = CONFIGURE_ROUTING then
           (case (fulfillStart s, rejectStart s) of
              (Some f, Some r) \<Rightarrow>
                if statusCode responseFromService = SUCCESS then call_fulfill f None s
                else socket_end newSocket
                       (call_reject r
                          (if statusCode responseFromService = UNSUPPORTED_ROUTING_TABLE
                           then UnsupportedRoutingTable (errorMessage responseFromService)
                           else ConfigureSystemProxyFailure (errorMessage responseFromService))
                          s)
            | _ \<Rightarrow>
                socket_end newSocket (console_error ''unexpected CONFIGURE_ROUTING response'' s))
         else if action responseFromService = RESET_ROUTING then
           socket_end newSocket
             (case fulfillStop s of Some f \<Rightarrow> call_fulfill f None s | None \<Rightarrow> s)
         else console_error ''unexpected response type received from routing service'' s)"

text \<open>The handler of \<^verbatim>\<open>'close'\<close>.\<close>

definition close_handler :: "sock \<Rightarrow> routingService \<Rightarrow> routingService" where
  "close_handler newSocket s0 =
     (let s1 = console_log ''disconnected from routing service'' s0;
          s2 = s1\<lparr>socket_listeners := (socket_listeners s1)(newSocket := {})\<rparr>;
          s3 = s2\<lparr>socket := None\<rparr>
      in case disconnectionListener s3 of
           Some l \<Rightarrow> s3\<lparr>trace := trace s3 @ [DisconnectionListenerCalled l (socket s3)]\<rparr>
         | None \<Rightarrow> s3)"

text \<open>The callback \<^verbatim>\<open>createConnection\<close> is given, run when the socket has connected.\<close>

definition connect_callback :: "sock \<Rightarrow> routingService \<Rightarrow> routingService" where
  "connect_callback newSocket s0 =
     (let s1 = console_log ''connected to routing service'' s0;
          s2 = s1\<lparr>socket_listeners :=
                    (socket_listeners s1)
                      (newSocket := socket_listeners s1 newSocket \<union> {OnData, OnClose})\<rparr>;
          s3 = s2\<lparr>socket := Some newSocket\<rparr>
      in call_fulfill (acquisition s3 newSocket) (Some newSocket) s3)"

text \<open>The handler of \<^verbatim>\<open>'error'\<close>.\<close>

definition error_handler :: "sock \<Rightarrow> routingService \<Rightarrow> routingService" where
  "error_handler newSocket s = call_reject (acquisition s newSocket) SystemConfigurationException s"

text \<open>
  \<^verbatim>\<open>getSocket\<close> returns a promise: one already fulfilled with the stored socket, or the one
  the connect callback and the error handler of a new socket settle.
\<close>

definition getSocket :: "routingService \<Rightarrow> promise \<times> routingService" where
  "getSocket s =
     (let p = next_promise s; s0 = s\<lparr>next_promise := Suc p\<rparr>
      in case socket s0 of
           Some k \<Rightarrow> (p, s0\<lparr>promises := (promises s0)(p := Fulfilled (Some k))\<rparr>)
         | None \<Rightarrow>
             (let newSocket = next_sock s0
              in (p, s0\<lparr>next_sock := Suc newSocket,
                        acquisition := (acquisition s0)(newSocket := p),
                        socket_listeners := (socket_listeners s0)(newSocket := {OnConnect, OnError}),
                        trace := trace s0 @ [CreateConnection newSocket (SERVICE_ADDRESS (platform s0))]\<rparr>)))"

definition setDisconnectionListener :: "callback option \<Rightarrow> routingService \<Rightarrow> routingService" where
  "setDisconnectionListener newListener s = s\<lparr>disconnectionListener := newListener\<rparr>"

text \<open>
  \<^verbatim>\<open>start\<close> up to its \<^verbatim>\<open>await\<close>: it throws, or suspends on the promise of \<^verbatim>\<open>getSocket\<close>.
\<close>

definition start :: "string \<Rightarrow> routingService \<Rightarrow> (error + promise) \<times> routingService" where
  "start proxyAddress' s =
     (if socket s \<noteq> None then (Inl (Error ''already connected, please call stop first''), s)
      else (case getSocket s of (p, s') \<Rightarrow> (Inr p, s')))"

text \<open>
  \<^verbatim>\<open>start\<close> after its \<^verbatim>\<open>await\<close> has yielded the socket \<open>k\<close>. It stores the callbacks of a
  new promise \<open>q\<close> and returns \<open>q\<close>; the promise \<open>a\<close> of the call, which the caller of
  \<^verbatim>\<open>start\<close> holds, follows \<open>q\<close> from then on. (The promise of the call exists from the
  call on; it is numbered here, where it first matters. When \<^verbatim>\<open>start\<close> throws, the error
  \<open>start\<close> yields stands for its rejection.)
\<close>

definition start_resume ::
  "string \<Rightarrow> sock \<Rightarrow> routingService \<Rightarrow> async_promise \<times> routingService" where
  "start_resume proxyAddress' k s =
     (let s1 = socket_write k CONFIGURE_ROUTING
                 [(''proxyIp'', PString proxyAddress'), (''routerIp'', PString ''10.0.85.1''),
                  (''isAutoConnect'', PBool False)] s;
          q = next_promise s1;
          a = next_async s1
      in (a, s1\<lparr>next_promise := Suc q, fulfillStart := Some q, rejectStart := Some q,
                next_async := Suc a, followers := (followers s1)(q := [a])\<rparr>))"

definition stop_routing :: "routingService \<Rightarrow> promise \<times> routingService" where
  "stop_routing s = getSocket s"

definition stop_resume :: "sock \<Rightarrow> routingService \<Rightarrow> async_promise \<times> routingService" where
  "stop_resume k s =
     (let s1 = socket_write k RESET_ROUTING [] s;
          q = next_promise s1;
          a = next_async s1
      in (a, s1\<lparr>next_promise := Suc q, fulfillStop := Some q,
                next_async := Suc a, followers := (followers s1)(q := [a])\<rparr>))"

subsection \<open>Events and calls\<close>

text \<open>
  The socket \<open>k\<close> emits an event: the handler registered for it runs, one registered with
  \<^verbatim>\<open>once\<close> (and the connect callback) after being removed. Nothing of the client
  changes when no handler is registered.
\<close>

definition unregister :: "sock \<Rightarrow> socket_event_name \<Rightarrow> routingService \<Rightarrow> routingService" where
  "unregister k n s = s\<lparr>socket_listeners := (socket_listeners s)(k := socket_listeners s k - {n})\<rparr>"

fun emit :: "sock \<Rightarrow> socket_event \<Rightarrow> routingService \<Rightarrow> routingService" where
  "emit k Connect s =
     (if OnConnect \<in> socket_listeners s k then connect_callback k (unregister k OnConnect s) else s)"
| "emit k (Data r) s =
     (if OnData \<in> socket_listeners s k then data_handler k r s else s)"
| "emit k Close s =
     (if OnClose \<in> socket_listeners s k then close_handler k (unregister k OnClose s) else s)"
| "emit k SocketError s =
     (if OnError \<in> socket_listeners s k then error_handler k (unregister k OnError s) else s)"

text \<open>
  What happens to a client, one event-loop turn after the other: a call from its owner,
  the continuation of a suspended \<^verbatim>\<open>start\<close> or \<^verbatim>\<open>stop\<close> (which runs only once the
  promise it waits for is fulfilled with a socket), a queued microtask, or an event of a
  socket. A continuation may run on any promise fulfilled with a socket, and any event
  may come at any time, so every schedule of the event loop is among the runs. A handler
  or a call is one step: it returns before the next microtask or event is taken.
\<close>

datatype call =
    CallSetDisconnectionListener "callback option"
  | CallStart string
  | ResumeStart string promise
  | CallStop
  | ResumeStop promise
  | RunMicrotask
  | Emit sock socket_event

fun step :: "call \<Rightarrow> routingService \<Rightarrow> routingService" where
  "step (CallSetDisconnectionListener l) s = setDisconnectionListener l s"
| "step (CallStart a) s = snd (start a s)"
| "step (ResumeStart a p) s =
     (case promises s p of Fulfilled (Some k) \<Rightarrow> snd (start_resume a k s) | _ \<Rightarrow> s)"
| "step CallStop s = snd (stop_routing s)"
| "step (ResumeStop p) s =
     (case promises s p of Fulfilled (Some k) \<Rightarrow> snd (stop_resume k s) | _ \<Rightarrow> s)"
| "step RunMicrotask s = run_microtask s"
| "step (Emit k ev) s = emit k ev s"

fun run :: "call list \<Rightarrow> routingService \<Rightarrow> routingService" where
  "run [] s = s"
| "run (c # cs) s = run cs (step c s)"

text \<open>
  The calls of the disconnection listener in a trace, in order: for each, the value of
  \<^verbatim>\<open>this.socket\<close> it found.
\<close>

fun listener_calls :: "effect list \<Rightarrow> sock option list" where
  "listener_calls [] = []"
| "listener_calls (DisconnectionListenerCalled l v # t) = v # listener_calls t"
| "listener_calls (ConsoleLog m # t) = listener_calls t"
| "listener_calls (ConsoleError m # t) = listener_calls t"
| "listener_calls (CreateConnection k a # t) = listener_calls t"
| "listener_calls (SocketWrite k a ps # t) = listener_calls t"
| "listener_calls (SocketEnd k # t) = listener_calls t"
| "listener_calls (FulfillCalled p v # t) = listener_calls t"
| "listener_calls (RejectCalled p e # t) = listener_calls t"
| "listener_calls (AsyncSettled a v # t) = listener_calls t"

text \<open>The effects of going from \<open>s\<close> to \<open>s'\<close>: what the trace has gained.\<close>

definition new_effects :: "routingService \<Rightarrow> routingService \<Rightarrow> effect list" where
  "new_effects s s' = drop (length (trace s)) (trace s')"

text \<open>
  How often the handlers of socket \<open>k\<close> call the disconnection listener while the client
  goes through \<open>cs\<close>.
\<close>

fun of_socket :: "sock \<Rightarrow> call \<Rightarrow> bool" where
  "of_socket k (Emit k' ev) = (k' = k)"
| "of_socket k (CallSetDisconnectionListener l) = False"
| "of_socket k (CallStart a) = False"
| "of_socket k (ResumeStart a p) = False"
| "of_socket k CallStop = False"
| "of_socket k (ResumeStop p) = False"
| "of_socket k RunMicrotask = False"

fun notified_by :: "sock \<Rightarrow> call list \<Rightarrow> routingService \<Rightarrow> nat" where
  "notified_by k [] s = 0"
| "notified_by k (c # cs) s =
     (if of_socket k c then length (listener_calls (new_effects s (step c s))) else 0)
     + notified_by k cs (step c s)"

text \<open>
  Two situations of a socket the client has created: connected (the connect callback has
  run and the close handler is registered), and closed (neither can run any more).
\<close>

definition socket_connected :: "sock \<Rightarrow> routingService \<Rightarrow> bool" where
  "socket_connected k s =
     (OnClose \<in> socket_listeners s k \<and> OnConnect \<notin> socket_listeners s k \<and> k < next_sock s)"

definition socket_closed :: "sock \<Rightarrow> routingService \<Rightarrow> bool" where
  "socket_closed k s =
     (OnClose \<notin> socket_listeners s k \<and> OnConnect \<notin> socket_listeners s k \<and> k < next_sock s)"

text \<open>\<open>a\<close> occurs in \<open>t\<close>, and \<open>b\<close> occurs after its first occurrence.\<close>

definition precedes :: "'a \<Rightarrow> 'a \<Rightarrow> 'a list \<Rightarrow> bool" where
  "precedes a b t = (b \<in> set (dropWhile (\<lambda>x. x \<noteq> a) t))"

subsection \<open>Concrete clients\<close>

text \<open>
  A client on Linux whose owner has registered a disconnection listener and called
  \<^verbatim>\<open>start\<close>: socket 0 has connected, the request has been written, and the promise 1
  whose callbacks \<^verbatim>\<open>start\<close> stored and the promise 0 of the call that follows it are
  pending.
\<close>

definition configure_pending :: routingService where
  "configure_pending =
     run [CallSetDisconnectionListener (Some 5), CallStart ''127.0.0.1'', Emit 0 Connect,
          ResumeStart ''127.0.0.1'' 0]
       (new_RoutingService ''linux'')"

text \<open>The same client after \<^verbatim>\<open>stop\<close> has been called as well: promise 3 is pending too.\<close>

definition configure_and_reset_pending :: routingService where
  "configure_and_reset_pending = run [CallStop, ResumeStop 2] configure_pending"

text \<open>
  A client on Windows on which only \<^verbatim>\<open>stop\<close> has been called, once its socket has
  connected: no \<^verbatim>\<open>start\<close> has ever set the two callbacks.
\<close>

definition connected_idle :: routingService where
  "connected_idle = run [CallStop, Emit 0 Connect] (new_RoutingService ''win32'')"

definition response :: "string \<Rightarrow> int \<Rightarrow> string option \<Rightarrow> routingServiceResponse" where
  "response a c m = \<lparr>action = a, statusCode = c, errorMessage = m, connectionStatus = 0\<rparr>"

section \<open>Properties of the process supervisors\<close>

lemma number_toString_1081: "number_toString 1081 = ''1081''"
  by (simp add: number_toString_def digits.simps)

lemma number_toString_65336: "number_toString 65336 = ''65336''"
  by (simp add: number_toString_def digits.simps)

text \<open>
  Claim C8. An SsLocal built for local port 1081 and started with host 203.0.113.5, port
  65336, password pw and method aes-128-cfb spawns its binary with exactly the arguments
  -l 1081 -s 203.0.113.5 -p 65336 -k pw -m aes-128-cfb -t 5 -u.
\<close>

theorem ssLocal_start_arguments:
  "ssLocal_args 1081
     \<lparr>host = Some ''203.0.113.5'', port = Some 65336,
      password = Some ''pw'', method' = Some ''aes-128-cfb''\<rparr>
   = [''-l'', ''1081'', ''-s'', ''203.0.113.5'', ''-p'', ''65336'', ''-k'', ''pw'',
      ''-m'', ''aes-128-cfb'', ''-t'', ''5'', ''-u'']
   \<and> proc_trace
       (ssLocal_start
          \<lparr>host = Some ''203.0.113.5'', port = Some 65336,
           password = Some ''pw'', method' = Some ''aes-128-cfb''\<rparr>
          (new_SsLocal pathToEmbeddedBinary 1081))
     = [Spawn 0 (pathToEmbeddedBinary ''shadowsocks-libev'' ''ss-local'')
          [''-l'', ''1081'', ''-s'', ''203.0.113.5'', ''-p'', ''65336'', ''-k'', ''pw'',
           ''-m'', ''aes-128-cfb'', ''-t'', ''5'', ''-u'']]"
  by (simp add: ssLocal_start_def startInternal_def new_SsLocal_def ssLocal_args_def
      or_empty_def concat_number_def number_toString_1081 number_toString_65336)

text \<open>
  Claim C9. A Tun2socks built for proxy address 127.0.0.1 and port 1081 spawns its binary
  with --tundev and the platform's device (outline-tun0 on Linux, the full tap
  specification elsewhere), --netif-ipaddr 10.0.85.1, --netif-netmask 255.255.255.0,
  --socks-server-addr 127.0.0.1:1081, --loglevel error, --transparent-dns, --socks5-udp
  and --udp-relay-addr 127.0.0.1:1081, in this order.
\<close>

theorem tun2socks_start_arguments:
  "proc_trace (tun2socks_start plat (new_Tun2socks pathToEmbeddedBinary ''127.0.0.1'' 1081))
   = [Spawn 0 (pathToEmbeddedBinary ''badvpn'' ''badvpn-tun2socks'')
        [''--tundev'',
         (if plat = ''linux'' then ''outline-tun0''
          else ''tap0901:outline-tap0:10.0.85.2:10.0.85.0:255.255.255.0''),
         ''--netif-ipaddr'', ''10.0.85.1'',
         ''--netif-netmask'', ''255.255.255.0'',
         ''--socks-server-addr'', ''127.0.0.1:1081'',
         ''--loglevel'', ''error'',
         ''--transparent-dns'',
         ''--socks5-udp'',
         ''--udp-relay-addr'', ''127.0.0.1:1081'']]"
  by (simp add: tun2socks_start_def startInternal_def new_Tun2socks_def tun2socks_args_def
      isLinux_def TUN2SOCKS_TAP_DEVICE_NAME_def TUN2SOCKS_TAP_DEVICE_IP_def
      TUN2SOCKS_VIRTUAL_ROUTER_IP_def TUN2SOCKS_TAP_DEVICE_NETWORK_def
      TUN2SOCKS_VIRTUAL_ROUTER_NETMASK_def number_toString_1081)

subsection \<open>One exit notification for each start\<close>

lemma exit_calls_append: "exit_calls (a @ b) = exit_calls a @ exit_calls b"
  by (induction a rule: exit_calls.induct) simp_all

lemma cleared_step:
  assumes "handlers_cleared s" "\<not> is_start c"
  shows "handlers_cleared (proc_step c s) \<and> proc_trace (proc_step c s) = proc_trace s"
  using assms
  by (cases c) (simp_all add: handlers_cleared_def stop_def setExitListener_def child_emit_def)

lemma cleared_run:
  assumes "handlers_cleared s" "\<forall>c\<in>set cs. \<not> is_start c"
  shows "handlers_cleared (proc_run cs s) \<and> proc_trace (proc_run cs s) = proc_trace s"
  using assms
proof (induction cs arbitrary: s)
  case Nil
  then show ?case by simp
next
  case (Cons c cs)
  then show ?case using cleared_step [of s c] by simp
qed

lemma on_step_other:
  assumes "handlers_on p s" "\<not> is_start c" "\<not> is_child_event p c"
  shows "handlers_on p (proc_step c s)"
    and "exit_calls (proc_trace (proc_step c s)) = exit_calls (proc_trace s)"
    and "c \<noteq> CallSetExitListener None \<Longrightarrow> exitListener s \<noteq> None
         \<Longrightarrow> exitListener (proc_step c s) \<noteq> None"
proof -
  show "handlers_on p (proc_step c s)"
    using assms
    by (cases c) (auto simp add: handlers_on_def stop_def setExitListener_def child_emit_def)
  show "exit_calls (proc_trace (proc_step c s)) = exit_calls (proc_trace s)"
    using assms
    by (cases c)
      (auto simp add: handlers_on_def stop_def setExitListener_def child_emit_def
        exit_calls_append)
  show "c \<noteq> CallSetExitListener None \<Longrightarrow> exitListener s \<noteq> None
        \<Longrightarrow> exitListener (proc_step c s) \<noteq> None"
    using assms
    by (cases c) (auto simp add: handlers_on_def stop_def setExitListener_def child_emit_def)
qed

lemma on_step_event:
  assumes "handlers_on p s"
  shows "handlers_cleared (child_emit p ev s)"
    and "exit_calls (proc_trace (child_emit p ev s)) =
           exit_calls (proc_trace s) @ (if exitListener s = None then [] else [None])"
proof -
  show "handlers_cleared (child_emit p ev s)"
    using assms
    by (cases ev)
      (auto simp add: handlers_on_def handlers_cleared_def child_emit_def onExit_def Let_def
        fun_eq_iff split: option.splits)
  show "exit_calls (proc_trace (child_emit p ev s)) =
           exit_calls (proc_trace s) @ (if exitListener s = None then [] else [None])"
    using assms
    by (cases ev)
      (auto simp add: handlers_on_def handlers_cleared_def child_emit_def onExit_def Let_def
        exit_calls_append split: option.splits)
qed

lemma on_run:
  assumes "handlers_on p s" "\<forall>c\<in>set cs. \<not> is_start c"
  shows "(exit_calls (proc_trace (proc_run cs s)) = exit_calls (proc_trace s)
          \<or> exit_calls (proc_trace (proc_run cs s)) = exit_calls (proc_trace s) @ [None])
       \<and> ((\<exists>c\<in>set cs. is_child_event p c) \<longrightarrow> handlers_cleared (proc_run cs s))
       \<and> (exitListener s \<noteq> None \<and> CallSetExitListener None \<notin> set cs
            \<and> (\<exists>c\<in>set cs. is_child_event p c)
          \<longrightarrow> exit_calls (proc_trace (proc_run cs s)) = exit_calls (proc_trace s) @ [None])"
  using assms
proof (induction cs arbitrary: s)
  case Nil
  then show ?case by simp
next
  case (Cons c cs)
  show ?case
  proof (cases "is_child_event p c")
    case True
    then obtain ev where c: "c = EmitChild p ev" by (cases c) auto
    have cl: "handlers_cleared (child_emit p ev s)"
      and tr: "exit_calls (proc_trace (child_emit p ev s)) =
           exit_calls (proc_trace s) @ (if exitListener s = None then [] else [None])"
      using on_step_event [OF Cons.prems(1)] by auto
    have "handlers_cleared (proc_run cs (child_emit p ev s))
          \<and> proc_trace (proc_run cs (child_emit p ev s)) = proc_trace (child_emit p ev s)"
      using cleared_run [OF cl] Cons.prems(2) by simp
    then show ?thesis using c tr by auto
  next
    case False
    have ns: "\<not> is_start c" using Cons.prems(2) by simp
    note st = on_step_other [OF Cons.prems(1) ns False]
    have ih:
      "(exit_calls (proc_trace (proc_run cs (proc_step c s)))
          = exit_calls (proc_trace (proc_step c s))
        \<or> exit_calls (proc_trace (proc_run cs (proc_step c s)))
          = exit_calls (proc_trace (proc_step c s)) @ [None])
       \<and> ((\<exists>c\<in>set cs. is_child_event p c) \<longrightarrow> handlers_cleared (proc_run cs (proc_step c s)))
       \<and> (exitListener (proc_step c s) \<noteq> None \<and> CallSetExitListener None \<notin> set cs
            \<and> (\<exists>c\<in>set cs. is_child_event p c)
          \<longrightarrow> exit_calls (proc_trace (proc_run cs (proc_step c s)))
              = exit_calls (proc_trace (proc_step c s)) @ [None])"
      using Cons.IH [OF st(1)] Cons.prems(2) by simp
    show ?thesis using ih st(2) st(3) False by auto
  qed
qed

lemma start_on:
  assumes "child_listeners s = (\<lambda>_. {})"
  shows "handlers_on (next_pid s) (startInternal args s)"
    and "exit_calls (proc_trace (startInternal args s)) = exit_calls (proc_trace s)"
    and "exitListener (startInternal args s) = exitListener s"
  using assms by (auto simp add: handlers_on_def startInternal_def Let_def exit_calls_append)

text \<open>
  Claim C7. Take a supervisor none of whose earlier child process objects still has a
  handler (a new one, or one whose last child has reported), start it, and let it go
  through any calls of stop and setExitListener and any events of any child, with no
  second start. Then the exit listener is called at most once, and the call finds the
  process handle cleared. Once the started child has reported an error or an exit
  (whichever comes first), the handle is cleared and no child has a handler, which is the
  situation a start is made from; and if a listener was registered and never removed, it
  has been called exactly once, however many events the child reports afterwards.
\<close>

theorem exit_listener_at_most_once:
  assumes "child_listeners s = (\<lambda>_. {})" and "\<forall>c\<in>set cs. \<not> is_start c"
  shows "(exit_calls (proc_trace (proc_run cs (startInternal args s))) = exit_calls (proc_trace s)
          \<or> exit_calls (proc_trace (proc_run cs (startInternal args s)))
              = exit_calls (proc_trace s) @ [None])
       \<and> ((\<exists>c\<in>set cs. is_child_event (next_pid s) c)
          \<longrightarrow> process (proc_run cs (startInternal args s)) = None
              \<and> child_listeners (proc_run cs (startInternal args s)) = (\<lambda>_. {}))
       \<and> (exitListener s \<noteq> None \<and> CallSetExitListener None \<notin> set cs
            \<and> (\<exists>c\<in>set cs. is_child_event (next_pid s) c)
          \<longrightarrow> exit_calls (proc_trace (proc_run cs (startInternal args s)))
              = exit_calls (proc_trace s) @ [None])"
  using on_run [OF start_on(1) [OF assms(1)] assms(2), of args]
    start_on(2,3) [OF assms(1), of args]
  by (simp add: handlers_cleared_def)

theorem exit_listener_at_most_once_witness:
  "exit_calls
     (proc_trace
        (proc_run [CallStopProcess, EmitChild 0 ChildExit, EmitChild 0 ChildError]
           (startInternal [''-u''] supervisor_with_listener)))
     = [None]
   \<and> process
       (proc_run [CallStopProcess, EmitChild 0 ChildExit, EmitChild 0 ChildError]
          (startInternal [''-u''] supervisor_with_listener))
     = None"
proof -
  have h1: "child_listeners supervisor_with_listener = (\<lambda>_. {})"
    by (simp add: supervisor_with_listener_def fresh_supervisor_def setExitListener_def)
  have h2: "\<forall>c\<in>set [CallStopProcess, EmitChild 0 ChildExit, EmitChild 0 ChildError]. \<not> is_start c"
    by simp
  have f: "exitListener supervisor_with_listener \<noteq> None"
    "next_pid supervisor_with_listener = 0"
    "proc_trace supervisor_with_listener = []"
    by (simp_all add: supervisor_with_listener_def fresh_supervisor_def setExitListener_def)
  show ?thesis
    using exit_listener_at_most_once [OF h1 h2, of "[''-u'']"] f
    by simp
qed

text \<open>
  The hypothesis that no second start comes before the child has reported is needed:
  started twice in a row, the supervisor calls the listener for the error and again for
  the exit of the first child.
\<close>

lemma double_start_notifies_twice:
  "exit_calls
     (proc_trace
        (proc_run [CallStartInternal [], CallStartInternal [], EmitChild 0 ChildError,
                   EmitChild 0 ChildExit] supervisor_with_listener))
     = [None, None]"
  by (simp add: supervisor_with_listener_def fresh_supervisor_def setExitListener_def
      startInternal_def child_emit_def onExit_def Let_def)

section \<open>Properties of the routing service client\<close>

lemmas routing_defs =
  console_log_def console_error_def socket_end_def socket_write_def settle_def
  call_fulfill_def call_reject_def data_handler_def close_handler_def connect_callback_def
  error_handler_def getSocket_def setDisconnectionListener_def start_def start_resume_def
  stop_routing_def stop_resume_def unregister_def deliver_def run_microtask_def Let_def

lemmas routing_consts =
  CONFIGURE_ROUTING_def RESET_ROUTING_def STATUS_CHANGED_def SUCCESS_def GENERIC_FAILURE_def
  UNSUPPORTED_ROUTING_TABLE_def SERVICE_ADDRESS_def

subsection \<open>The concrete clients\<close>

lemma configure_pending_fields:
  "socket configure_pending = Some 0"
  "disconnectionListener configure_pending = Some 5"
  "fulfillStart configure_pending = Some 1"
  "rejectStart configure_pending = Some 1"
  "fulfillStop configure_pending = None"
  "promises configure_pending 1 = Pending"
  "promises configure_pending 0 = Fulfilled (Some 0)"
  "next_promise configure_pending = 2"
  "next_sock configure_pending = 1"
  "socket_listeners configure_pending 0 = {OnData, OnClose, OnError}"
  "trace configure_pending =
     [CreateConnection 0 ''/var/run/outline_controller'',
      ConsoleLog ''connected to routing service'',
      FulfillCalled 0 (Some 0),
      SocketWrite 0 ''configureRouting''
        [(''proxyIp'', PString ''127.0.0.1''), (''routerIp'', PString ''10.0.85.1''),
         (''isAutoConnect'', PBool False)]]"
  by (simp_all add: configure_pending_def new_RoutingService_def routing_defs routing_consts)

lemma configure_and_reset_pending_fields:
  "socket configure_and_reset_pending = Some 0"
  "fulfillStart configure_and_reset_pending = Some 1"
  "rejectStart configure_and_reset_pending = Some 1"
  "fulfillStop configure_and_reset_pending = Some 3"
  "promises configure_and_reset_pending 1 = Pending"
  "promises configure_and_reset_pending 3 = Pending"
  "next_promise configure_and_reset_pending = 4"
  by (simp_all add: configure_and_reset_pending_def configure_pending_def new_RoutingService_def
      routing_defs routing_consts)

lemma configure_pending_async:
  "followers configure_pending 1 = [0]"
  "async_promises configure_pending 0 = Pending"
  "microtasks configure_pending = []"
  by (simp_all add: configure_pending_def new_RoutingService_def routing_defs routing_consts)

lemma response_fields:
  "action (response a c m) = a"
  "statusCode (response a c m) = c"
  "errorMessage (response a c m) = m"
  by (simp_all add: response_def)

subsection \<open>The trace grows, settled promises stay\<close>

lemma listener_calls_append: "listener_calls (a @ b) = listener_calls a @ listener_calls b"
  by (induction a rule: listener_calls.induct) simp_all

lemma new_effects_append: "trace s' = trace s @ x \<Longrightarrow> new_effects s s' = x"
  by (simp add: new_effects_def)

lemma emit_trace:
  "\<exists>x. trace (emit k ev s) = trace s @ x \<and> set (listener_calls x) \<subseteq> {None}"
  by (cases ev) (auto simp add: routing_defs listener_calls_append split: option.splits)

lemma step_trace:
  "\<exists>x. trace (step c s) = trace s @ x \<and> set (listener_calls x) \<subseteq> {None}"
proof (cases c)
  case (Emit k ev)
  then show ?thesis using emit_trace [of k ev s] by simp
qed (auto simp add: routing_defs listener_calls_append split: option.splits settlement.splits list.splits prod.splits)

lemma run_trace:
  "\<exists>x. trace (run cs s) = trace s @ x \<and> set (listener_calls x) \<subseteq> {None}"
proof (induction cs arbitrary: s)
  case Nil
  then show ?case by simp
next
  case (Cons c cs)
  obtain x where x: "trace (step c s) = trace s @ x" "set (listener_calls x) \<subseteq> {None}"
    using step_trace by blast
  obtain y where y: "trace (run cs (step c s)) = trace (step c s) @ y"
      "set (listener_calls y) \<subseteq> {None}"
    using Cons.IH by blast
  have "trace (run (c # cs) s) = trace s @ (x @ y)" using x y by simp
  moreover have "set (listener_calls (x @ y)) \<subseteq> {None}"
    using x y by (simp add: listener_calls_append)
  ultimately show ?case by blast
qed

lemma emit_promises:
  assumes "promises s p \<noteq> Pending" "p < next_promise s"
  shows "promises (emit k ev s) p = promises s p \<and> next_promise (emit k ev s) = next_promise s"
  using assms by (cases ev) (auto simp add: routing_defs split: option.splits)

lemma step_promises:
  assumes "promises s p \<noteq> Pending" "p < next_promise s"
  shows "promises (step c s) p = promises s p \<and> next_promise s \<le> next_promise (step c s)"
proof (cases c)
  case (Emit k ev)
  then show ?thesis using emit_promises [OF assms, of k ev] by simp
qed (use assms in \<open>auto simp add: routing_defs split: option.splits settlement.splits list.splits prod.splits\<close>)

lemma run_promises:
  assumes "promises s p \<noteq> Pending" "p < next_promise s"
  shows "promises (run cs s) p = promises s p"
  using assms
proof (induction cs arbitrary: s)
  case Nil
  then show ?case by simp
next
  case (Cons c cs)
  have st: "promises (step c s) p = promises s p" "next_promise s \<le> next_promise (step c s)"
    using step_promises [OF Cons.prems] by auto
  have "promises (run cs (step c s)) p = promises (step c s) p"
    using Cons.IH [of "step c s"] st Cons.prems by simp
  then show ?case using st by simp
qed

text \<open>The promise of a call is settled by a microtask only, and the trace shows it.\<close>

lemma emit_async:
  "async_promises (emit k ev s) a = async_promises s a"
  by (cases ev) (auto simp add: routing_defs split: option.splits)

lemma step_async:
  "async_promises (step c s) a = async_promises s a
   \<or> (\<exists>v. trace (step c s) = trace s @ [AsyncSettled a v])"
proof (cases c)
  case (Emit k ev)
  then show ?thesis using emit_async [of k ev s a] by simp
qed (auto simp add: routing_defs split: option.splits settlement.splits list.splits prod.splits)

lemma run_async_settled:
  assumes "async_promises s a = Pending" "async_promises (run cs s) a \<noteq> Pending"
  shows "\<exists>v. AsyncSettled a v \<in> set (new_effects s (run cs s))"
  using assms
proof (induction cs arbitrary: s)
  case Nil
  then show ?case by simp
next
  case (Cons c cs)
  obtain y where y: "trace (run cs (step c s)) = trace (step c s) @ y"
    using run_trace by blast
  obtain x where x: "trace (step c s) = trace s @ x"
    using step_trace by blast
  have all: "new_effects s (run (c # cs) s) = x @ y"
    using x y by (simp add: new_effects_def)
  show ?case
  proof (cases "async_promises (step c s) a = Pending")
    case True
    then obtain v where "AsyncSettled a v \<in> set (new_effects (step c s) (run cs (step c s)))"
      using Cons.IH [of "step c s"] Cons.prems(2) by auto
    then have "AsyncSettled a v \<in> set y" using y by (simp add: new_effects_def)
    then show ?thesis using all by auto
  next
    case False
    then obtain v where "trace (step c s) = trace s @ [AsyncSettled a v]"
      using step_async [of c s a] Cons.prems(1) by auto
    then have "x = [AsyncSettled a v]" using x by simp
    then show ?thesis using all by auto
  qed
qed

subsection \<open>Responses to configureRouting\<close>

text \<open>
  Claim C1. A configureRouting response arrives while the promise \<open>p\<close> that start
  created is pending (both callbacks are those of \<open>p\<close>). With status code 0 the handler
  calls the fulfil callback and nothing else, \<open>p\<close> is fulfilled, and it stays fulfilled
  whatever the client goes through afterwards: it never rejects. With status code 2
  \<open>p\<close> is rejected with UnsupportedRoutingTable, with any other status code (1
  included) with ConfigureSystemProxyFailure, each carrying the response's errorMessage.
\<close>

theorem configure_response_settles_start:
  assumes "action r = CONFIGURE_ROUTING"
      and "fulfillStart s = Some p" and "rejectStart s = Some p"
      and "promises s p = Pending" and "p < next_promise s"
  shows "(statusCode r = 0 \<longrightarrow>
            promises (data_handler k r s) p = Fulfilled None
            \<and> trace (data_handler k r s)
                = trace s @ [ConsoleLog ''received message from routing service'',
                             FulfillCalled p None]
            \<and> (\<forall>cs. promises (run cs (data_handler k r s)) p = Fulfilled None))
       \<and> (statusCode r = 2 \<longrightarrow>
            promises (data_handler k r s) p
              = Rejected (UnsupportedRoutingTable (errorMessage r)))
       \<and> (statusCode r \<noteq> 0 \<and> statusCode r \<noteq> 2 \<longrightarrow>
            promises (data_handler k r s) p
              = Rejected (ConfigureSystemProxyFailure (errorMessage r)))"
proof -
  have np: "next_promise (data_handler k r s) = next_promise s"
    using assms by (simp add: routing_defs)
  have ok: "statusCode r = 0 \<Longrightarrow> promises (data_handler k r s) p = Fulfilled None"
    using assms by (simp add: routing_defs routing_consts)
  have stable: "statusCode r = 0 \<Longrightarrow> promises (run cs (data_handler k r s)) p = Fulfilled None"
    for cs
    using run_promises [of "data_handler k r s" p cs] ok np assms(5) by simp
  have tr: "statusCode r = 0 \<Longrightarrow> trace (data_handler k r s)
                = trace s @ [ConsoleLog ''received message from routing service'',
                             FulfillCalled p None]"
    using assms by (simp add: routing_defs routing_consts)
  have unsupported: "statusCode r = 2 \<Longrightarrow> promises (data_handler k r s) p
              = Rejected (UnsupportedRoutingTable (errorMessage r))"
    using assms by (simp add: routing_defs routing_consts)
  have generic: "statusCode r \<noteq> 0 \<Longrightarrow> statusCode r \<noteq> 2 \<Longrightarrow> promises (data_handler k r s) p
              = Rejected (ConfigureSystemProxyFailure (errorMessage r))"
    using assms by (simp add: routing_defs routing_consts)
  show ?thesis using ok stable tr unsupported generic by blast
qed

theorem configure_response_settles_start_witness:
  "promises (data_handler 0 (response ''configureRouting'' 0 None) configure_pending) 1
     = Fulfilled None
   \<and> promises
       (run [Emit 0 (Data (response ''configureRouting'' 2 (Some ''late'')))]
          (data_handler 0 (response ''configureRouting'' 0 None) configure_pending)) 1
     = Fulfilled None
   \<and> promises
       (data_handler 0 (response ''configureRouting'' 2 (Some ''no table'')) configure_pending) 1
     = Rejected (UnsupportedRoutingTable (Some ''no table''))
   \<and> promises
       (data_handler 0 (response ''configureRouting'' 1 (Some ''failed'')) configure_pending) 1
     = Rejected (ConfigureSystemProxyFailure (Some ''failed''))"
proof -
  have a: "action (response ''configureRouting'' c m) = CONFIGURE_ROUTING" for c m
    by (simp add: response_def CONFIGURE_ROUTING_def)
  note c = response_fields(2,3)
  note f = configure_pending_fields
  have n: "(1::nat) < next_promise configure_pending" by (simp add: f)
  note ok = configure_response_settles_start [OF a f(3) f(4) f(6) n, of 0 None 0,
      THEN conjunct1, THEN mp, OF c(1)]
  note unsupported = configure_response_settles_start [OF a f(3) f(4) f(6) n,
      of 2 "Some ''no table''" 0, THEN conjunct2, THEN conjunct1, THEN mp, OF c(1)]
  have "statusCode (response ''configureRouting'' 1 (Some ''failed'')) \<noteq> 0
        \<and> statusCode (response ''configureRouting'' 1 (Some ''failed'')) \<noteq> 2"
    by (simp add: c)
  note generic = configure_response_settles_start [OF a f(3) f(4) f(6) n,
      of 1 "Some ''failed''" 0, THEN conjunct2, THEN conjunct2, THEN mp, OF this]
  note later = ok [THEN conjunct2, THEN conjunct2, THEN spec,
      of "[Emit 0 (Data (response ''configureRouting'' 2 (Some ''late'')))]"]
  show ?thesis
    using ok [THEN conjunct1] later unsupported generic unfolding c by blast
qed

text \<open>
  Claim C10. A configureRouting response arrives while the fulfil callback or the reject
  callback of start is unset (in particular while both are, no start having been made).
  The handler logs the message and the error "unexpected CONFIGURE_ROUTING response",
  ends the socket, and changes nothing else: no promise is settled, and the status code
  plays no part.
\<close>

theorem unexpected_configure_response:
  assumes "action r = CONFIGURE_ROUTING"
      and "\<not> (fulfillStart s \<noteq> None \<and> rejectStart s \<noteq> None)"
  shows "data_handler k r s
           = s\<lparr>trace := trace s @ [ConsoleLog ''received message from routing service'',
                                   ConsoleError ''unexpected CONFIGURE_ROUTING response'',
                                   SocketEnd k]\<rparr>"
  using assms
  by (auto simp add: routing_defs routing_consts split: option.splits)

theorem unexpected_configure_response_witness:
  "data_handler 0 (response ''configureRouting'' 2 (Some ''no table'')) connected_idle
     = connected_idle
         \<lparr>trace := trace connected_idle
            @ [ConsoleLog ''received message from routing service'',
               ConsoleError ''unexpected CONFIGURE_ROUTING response'',
               SocketEnd 0]\<rparr>"
proof -
  have a: "action (response ''configureRouting'' 2 (Some ''no table'')) = CONFIGURE_ROUTING"
    by (simp add: response_def CONFIGURE_ROUTING_def)
  have b: "\<not> (fulfillStart connected_idle \<noteq> None \<and> rejectStart connected_idle \<noteq> None)"
    by (simp add: connected_idle_def new_RoutingService_def routing_defs)
  show ?thesis
    using unexpected_configure_response [OF a b, of 0] by simp
qed

text \<open>
  Claim C5. A configureRouting response with a status code other than 0 arrives while
  start is pending: both callbacks are set, those of the pending promise \<open>p\<close>, and the
  promise \<open>a\<close> of the call of start, the one the caller holds, follows \<open>p\<close> and is
  pending. The handler calls the reject callback, which rejects \<open>p\<close>, and ends the
  socket, and returns with \<open>a\<close> still pending: its rejection is only queued. On every schedule that follows,
  whenever \<open>a\<close> is found settled, its settling comes after the end of the socket in the
  trace. With no microtask queued before, the next microtask rejects \<open>a\<close> with the
  error of the response, and the effects are, in order: the log, the call of the reject
  callback, the end of the socket, the settling of \<open>a\<close>.
\<close>

theorem close_before_rejection_delivered:
  assumes "action r = CONFIGURE_ROUTING"
      and "fulfillStart s = Some f" and "rejectStart s = Some p"
      and "statusCode r \<noteq> SUCCESS"
      and "promises s p = Pending" and "followers s p = [a]"
      and "async_promises s a = Pending"
      and "e = (if statusCode r = UNSUPPORTED_ROUTING_TABLE
                then UnsupportedRoutingTable (errorMessage r)
                else ConfigureSystemProxyFailure (errorMessage r))"
  shows "trace (data_handler k r s)
           = trace s @ [ConsoleLog ''received message from routing service'',
                        RejectCalled p e, SocketEnd k]
       \<and> promises (data_handler k r s) p = Rejected e
       \<and> async_promises (data_handler k r s) a = Pending
       \<and> microtasks (data_handler k r s) = microtasks s @ [(a, Rejected e)]
       \<and> (\<forall>cs. async_promises (run cs (data_handler k r s)) a \<noteq> Pending \<longrightarrow>
              (\<exists>v. precedes (SocketEnd k) (AsyncSettled a v)
                     (new_effects s (run cs (data_handler k r s)))))
       \<and> (microtasks s = [] \<longrightarrow>
              async_promises (run [RunMicrotask] (data_handler k r s)) a = Rejected e
              \<and> new_effects s (run [RunMicrotask] (data_handler k r s))
                  = [ConsoleLog ''received message from routing service'',
                     RejectCalled p e, SocketEnd k, AsyncSettled a (Rejected e)])"
proof -
  have tr: "trace (data_handler k r s)
           = trace s @ [ConsoleLog ''received message from routing service'',
                        RejectCalled p e, SocketEnd k]"
    using assms by (simp add: routing_defs routing_consts)
  have inner: "promises (data_handler k r s) p = Rejected e"
    using assms by (simp add: routing_defs routing_consts)
  have pend: "async_promises (data_handler k r s) a = Pending"
    using assms by (simp add: routing_defs routing_consts)
  have queue: "microtasks (data_handler k r s) = microtasks s @ [(a, Rejected e)]"
    using assms by (simp add: routing_defs routing_consts)
  have later: "\<exists>v. precedes (SocketEnd k) (AsyncSettled a v)
                     (new_effects s (run cs (data_handler k r s)))"
    if h: "async_promises (run cs (data_handler k r s)) a \<noteq> Pending" for cs
  proof -
    obtain v where v: "AsyncSettled a v
        \<in> set (new_effects (data_handler k r s) (run cs (data_handler k r s)))"
      using run_async_settled [OF pend h] by blast
    obtain x where x: "trace (run cs (data_handler k r s)) = trace (data_handler k r s) @ x"
      using run_trace by blast
    have "AsyncSettled a v \<in> set x" using v x by (simp add: new_effects_def)
    moreover have "new_effects s (run cs (data_handler k r s))
        = [ConsoleLog ''received message from routing service'', RejectCalled p e, SocketEnd k]
          @ x"
      using x tr by (simp add: new_effects_def)
    ultimately have "precedes (SocketEnd k) (AsyncSettled a v)
        (new_effects s (run cs (data_handler k r s)))"
      by (simp add: precedes_def)
    then show ?thesis by blast
  qed
  have now: "async_promises (run [RunMicrotask] (data_handler k r s)) a = Rejected e
              \<and> new_effects s (run [RunMicrotask] (data_handler k r s))
                  = [ConsoleLog ''received message from routing service'',
                     RejectCalled p e, SocketEnd k, AsyncSettled a (Rejected e)]"
    if "microtasks s = []"
    using that pend queue tr by (simp add: run_microtask_def deliver_def new_effects_def)
  show ?thesis using tr inner pend queue later now by blast
qed

theorem close_before_rejection_delivered_witness:
  "async_promises
     (data_handler 0 (response ''configureRouting'' 1 (Some ''failed'')) configure_pending) 0
     = Pending
   \<and> new_effects configure_pending
        (run [RunMicrotask]
           (data_handler 0 (response ''configureRouting'' 1 (Some ''failed'')) configure_pending))
     = [ConsoleLog ''received message from routing service'',
        RejectCalled 1 (ConfigureSystemProxyFailure (Some ''failed'')),
        SocketEnd 0,
        AsyncSettled 0 (Rejected (ConfigureSystemProxyFailure (Some ''failed'')))]
   \<and> precedes (SocketEnd 0)
        (AsyncSettled 0 (Rejected (ConfigureSystemProxyFailure (Some ''failed''))))
        (new_effects configure_pending
           (run [RunMicrotask]
              (data_handler 0 (response ''configureRouting'' 1 (Some ''failed''))
                 configure_pending)))"
proof -
  note f = configure_pending_fields
  note g = configure_pending_async
  have a: "action (response ''configureRouting'' 1 (Some ''failed'')) = CONFIGURE_ROUTING"
    by (simp add: response_def CONFIGURE_ROUTING_def)
  have b: "statusCode (response ''configureRouting'' 1 (Some ''failed'')) \<noteq> SUCCESS"
    by (simp add: response_def SUCCESS_def)
  have e: "ConfigureSystemProxyFailure (Some ''failed'')
      = (if statusCode (response ''configureRouting'' 1 (Some ''failed''))
            = UNSUPPORTED_ROUTING_TABLE
         then UnsupportedRoutingTable (errorMessage (response ''configureRouting'' 1 (Some ''failed'')))
         else ConfigureSystemProxyFailure
                (errorMessage (response ''configureRouting'' 1 (Some ''failed''))))"
    by (simp add: response_def UNSUPPORTED_ROUTING_TABLE_def)
  note t = close_before_rejection_delivered [OF a f(3) f(4) b f(6) g(1) g(2) e, of 0]
  have p: "async_promises
     (data_handler 0 (response ''configureRouting'' 1 (Some ''failed'')) configure_pending) 0
     = Pending"
    using t by blast
  have d: "new_effects configure_pending
        (run [RunMicrotask]
           (data_handler 0 (response ''configureRouting'' 1 (Some ''failed'')) configure_pending))
     = [ConsoleLog ''received message from routing service'',
        RejectCalled 1 (ConfigureSystemProxyFailure (Some ''failed'')),
        SocketEnd 0,
        AsyncSettled 0 (Rejected (ConfigureSystemProxyFailure (Some ''failed'')))]"
    using t g(3) by blast
  show ?thesis using p d by (simp add: precedes_def)
qed

subsection \<open>Starting while connected\<close>

text \<open>
  Claim C2. Called while a socket is stored, start throws the error "already connected,
  please call stop first" at once: the client is returned as it was, with its stored
  socket, its callbacks and its trace, so no connection has been created and nothing
  has been written.
\<close>

theorem start_while_connected_throws:
  assumes "socket s = Some k"
  shows "start proxyAddress' s = (Inl (Error ''already connected, please call stop first''), s)"
  using assms by (simp add: start_def)

theorem start_while_connected_throws_witness:
  "start ''127.0.0.1'' configure_pending
     = (Inl (Error ''already connected, please call stop first''), configure_pending)"
  using start_while_connected_throws [OF configure_pending_fields(1), of "''127.0.0.1''"]
  by simp

subsection \<open>Responses to resetRouting and other messages\<close>

text \<open>
  Claim C3. On a resetRouting response the handler logs the message, calls the fulfil
  callback of stop when there is one, and ends the socket as its last act. A pending
  promise of stop is fulfilled; no promise becomes rejected; and the client is left the
  same whatever the status code of the response is.
\<close>

theorem reset_response_resolves_and_ends:
  assumes "action r = RESET_ROUTING"
  shows "trace (data_handler k r s)
           = trace s @ [ConsoleLog ''received message from routing service'']
             @ (case fulfillStop s of Some f \<Rightarrow> [FulfillCalled f None] | None \<Rightarrow> [])
             @ [SocketEnd k]
       \<and> (\<forall>f. fulfillStop s = Some f \<and> promises s f = Pending
              \<longrightarrow> promises (data_handler k r s) f = Fulfilled None)
       \<and> (\<forall>q e. promises (data_handler k r s) q = Rejected e \<longrightarrow> promises s q = Rejected e)
       \<and> (\<forall>c. data_handler k (r\<lparr>statusCode := c\<rparr>) s = data_handler k r s)"
  using assms
  by (auto simp add: routing_defs routing_consts split: option.splits if_splits)

theorem reset_response_resolves_and_ends_witness:
  "promises
     (data_handler 0 (response ''resetRouting'' 1 (Some ''failed'')) configure_and_reset_pending) 3
     = Fulfilled None
   \<and> new_effects configure_and_reset_pending
        (data_handler 0 (response ''resetRouting'' 1 (Some ''failed''))
           configure_and_reset_pending)
     = [ConsoleLog ''received message from routing service'', FulfillCalled 3 None, SocketEnd 0]"
proof -
  have a: "action (response ''resetRouting'' 1 (Some ''failed'')) = RESET_ROUTING"
    by (simp add: response_def RESET_ROUTING_def)
  note f = configure_and_reset_pending_fields
  show ?thesis
    using reset_response_resolves_and_ends [OF a, of 0 configure_and_reset_pending]
    by (simp add: f new_effects_def)
qed

text \<open>
  Claim C4, as stated: while start is pending, a message with any action other than
  configureRouting is logged, ends the socket and leaves the promise of start pending.
  It fails for a statusChanged message: the socket is not ended.
\<close>

theorem unexpected_action_closes_counterexample:
  "\<not> (ConsoleLog ''received message from routing service''
        \<in> set (new_effects configure_pending
                 (data_handler 0 (response ''statusChanged'' 0 None) configure_pending))
      \<and> SocketEnd 0
        \<in> set (new_effects configure_pending
                 (data_handler 0 (response ''statusChanged'' 0 None) configure_pending))
      \<and> promises (data_handler 0 (response ''statusChanged'' 0 None) configure_pending) 1
          = Pending)"
  by (simp add: new_effects_def configure_pending_fields response_def routing_defs routing_consts)

text \<open>
  Claim C4, amended. While the promise \<open>p\<close> of start is pending (and is not the promise
  of a stop), a message with an action other than configureRouting leaves \<open>p\<close> pending.
  A resetRouting message is logged, fulfils the promise of stop when there is one, and
  ends the socket. A message with any other action (statusChanged among them) is logged,
  the error "unexpected response type received from routing service" is logged, and
  nothing else happens: the socket is not ended.
\<close>

theorem other_action_leaves_start_pending:
  assumes "action r \<noteq> CONFIGURE_ROUTING"
      and "fulfillStart s = Some p" and "rejectStart s = Some p"
      and "promises s p = Pending" and "fulfillStop s \<noteq> Some p"
  shows "promises (data_handler k r s) p = Pending
       \<and> (action r = RESET_ROUTING \<longrightarrow>
            trace (data_handler k r s)
              = trace s @ [ConsoleLog ''received message from routing service'']
                @ (case fulfillStop s of Some f \<Rightarrow> [FulfillCalled f None] | None \<Rightarrow> [])
                @ [SocketEnd k])
       \<and> (action r \<noteq> RESET_ROUTING \<longrightarrow>
            trace (data_handler k r s)
              = trace s @ [ConsoleLog ''received message from routing service'',
                           ConsoleError ''unexpected response type received from routing service''])"
  using assms
  by (auto simp add: routing_defs routing_consts split: option.splits)

theorem other_action_leaves_start_pending_witness:
  "promises (data_handler 0 (response ''resetRouting'' 0 None) configure_and_reset_pending) 1
     = Pending
   \<and> new_effects configure_and_reset_pending
        (data_handler 0 (response ''resetRouting'' 0 None) configure_and_reset_pending)
       = [ConsoleLog ''received message from routing service'', FulfillCalled 3 None, SocketEnd 0]
   \<and> new_effects configure_and_reset_pending
        (data_handler 0 (response ''statusChanged'' 0 None) configure_and_reset_pending)
       = [ConsoleLog ''received message from routing service'',
          ConsoleError ''unexpected response type received from routing service'']"
proof -
  note f = configure_and_reset_pending_fields
  have a: "action (response ''resetRouting'' 0 None) \<noteq> CONFIGURE_ROUTING"
    "action (response ''statusChanged'' 0 None) \<noteq> CONFIGURE_ROUTING"
    by (simp_all add: response_def CONFIGURE_ROUTING_def)
  have b: "fulfillStop configure_and_reset_pending \<noteq> Some 1" by (simp add: f)
  have c: "action (response ''resetRouting'' 0 None) = RESET_ROUTING"
    "action (response ''statusChanged'' 0 None) \<noteq> RESET_ROUTING"
    by (simp_all add: response_def RESET_ROUTING_def)
  show ?thesis
    using other_action_leaves_start_pending [OF a(1) f(2) f(3) f(5) b, of 0]
      other_action_leaves_start_pending [OF a(2) f(2) f(3) f(5) b, of 0]
    by (simp add: c f new_effects_def)
qed

subsection \<open>One disconnection notification for each connection\<close>

lemma emit_closed:
  assumes "socket_closed k s"
  shows "socket_closed k (emit k' ev s)"
  using assms by (cases ev) (auto simp add: socket_closed_def routing_defs split: option.splits)

lemma step_closed:
  assumes "socket_closed k s"
  shows "socket_closed k (step c s)"
proof (cases c)
  case (Emit k' ev)
  then show ?thesis using emit_closed [OF assms, of k' ev] by simp
qed (use assms in
    \<open>auto simp add: socket_closed_def routing_defs split: option.splits settlement.splits list.splits prod.splits\<close>)

lemma emit_closed_silent:
  assumes "socket_closed k s"
  shows "listener_calls (new_effects s (emit k ev s)) = []"
  using assms
  by (cases ev)
    (auto simp add: socket_closed_def new_effects_def routing_defs split: option.splits)

lemma closed_notified_by:
  assumes "socket_closed k s"
  shows "notified_by k cs s = 0"
  using assms
proof (induction cs arbitrary: s)
  case Nil
  then show ?case by simp
next
  case (Cons c cs)
  have "of_socket k c \<Longrightarrow> listener_calls (new_effects s (step c s)) = []"
    using emit_closed_silent [OF Cons.prems] by (cases c) auto
  then show ?case using Cons.IH [OF step_closed [OF Cons.prems, of c]] by simp
qed

lemma emit_connected:
  assumes "socket_connected k s" "\<not> (k' = k \<and> ev = Close)"
  shows "socket_connected k (emit k' ev s)"
    and "k' = k \<Longrightarrow> listener_calls (new_effects s (emit k' ev s)) = []"
    and "disconnectionListener (emit k' ev s) = disconnectionListener s"
proof -
  show "socket_connected k (emit k' ev s)"
    using assms
    by (cases ev) (auto simp add: socket_connected_def routing_defs split: option.splits)
  show "k' = k \<Longrightarrow> listener_calls (new_effects s (emit k' ev s)) = []"
    using assms
    by (cases ev)
      (auto simp add: socket_connected_def new_effects_def routing_defs split: option.splits)
  show "disconnectionListener (emit k' ev s) = disconnectionListener s"
    by (cases ev) (auto simp add: routing_defs split: option.splits)
qed

lemma step_connected:
  assumes "socket_connected k s" "c \<noteq> Emit k Close"
  shows "socket_connected k (step c s)"
    and "of_socket k c \<Longrightarrow> listener_calls (new_effects s (step c s)) = []"
    and "c \<noteq> CallSetDisconnectionListener None \<Longrightarrow> disconnectionListener s \<noteq> None
         \<Longrightarrow> disconnectionListener (step c s) \<noteq> None"
proof -
  show "socket_connected k (step c s)"
  proof (cases c)
    case (Emit k' ev)
    then show ?thesis using emit_connected(1) [OF assms(1), of k' ev] assms(2) by auto
  qed (use assms in
      \<open>auto simp add: socket_connected_def routing_defs split: option.splits settlement.splits list.splits prod.splits\<close>)
  show "of_socket k c \<Longrightarrow> listener_calls (new_effects s (step c s)) = []"
    using emit_connected(2) [OF assms(1)] assms(2) by (cases c) auto
  show "c \<noteq> CallSetDisconnectionListener None \<Longrightarrow> disconnectionListener s \<noteq> None
         \<Longrightarrow> disconnectionListener (step c s) \<noteq> None"
  proof (cases c)
    case (Emit k' ev)
    assume "disconnectionListener s \<noteq> None"
    then show ?thesis using emit_connected(3) [OF assms(1), of k' ev] assms(2) Emit by auto
  qed (auto simp add: routing_defs split: option.splits settlement.splits list.splits prod.splits)
qed

lemma close_connected:
  assumes "socket_connected k s"
  shows "socket_closed k (emit k Close s)"
    and "length (listener_calls (new_effects s (emit k Close s)))
           = (if disconnectionListener s = None then 0 else 1)"
  using assms
  by (auto simp add: socket_connected_def socket_closed_def new_effects_def routing_defs
      split: option.splits)

lemma connected_notified_by:
  assumes "socket_connected k s"
  shows "notified_by k cs s \<le> 1
       \<and> (disconnectionListener s \<noteq> None \<and> CallSetDisconnectionListener None \<notin> set cs
            \<and> Emit k Close \<in> set cs
          \<longrightarrow> notified_by k cs s = 1)"
  using assms
proof (induction cs arbitrary: s)
  case Nil
  then show ?case by simp
next
  case (Cons c cs)
  show ?case
  proof (cases "c = Emit k Close")
    case True
    have "notified_by k cs (emit k Close s) = 0"
      using closed_notified_by [OF close_connected(1) [OF Cons.prems]] .
    then show ?thesis using True close_connected(2) [OF Cons.prems] by simp
  next
    case False
    note st = step_connected [OF Cons.prems False]
    have here:
      "(if of_socket k c then length (listener_calls (new_effects s (step c s))) else 0) = 0"
      using st(2) by simp
    have ih: "notified_by k cs (step c s) \<le> 1
       \<and> (disconnectionListener (step c s) \<noteq> None
            \<and> CallSetDisconnectionListener None \<notin> set cs \<and> Emit k Close \<in> set cs
          \<longrightarrow> notified_by k cs (step c s) = 1)"
      using Cons.IH [OF st(1)] .
    have eq: "notified_by k (c # cs) s = notified_by k cs (step c s)"
      using here by simp
    show ?thesis unfolding eq using ih st(3) False by auto
  qed
qed

text \<open>
  Claim C6. Take a connected socket \<open>k\<close> (its connect callback has run, its close handler
  is registered) and let the client go through any calls and any events of any socket,
  in any order. The handlers of \<open>k\<close> call the disconnection listener at most once. If a
  listener is registered and never removed and \<open>k\<close> emits close (whatever came before:
  an end by the client, by the service, or an error of the socket), they call it exactly
  once, however often close is emitted. And every call of the listener finds the stored
  socket cleared.
\<close>

theorem disconnection_listener_once:
  assumes "OnClose \<in> socket_listeners s k" and "OnConnect \<notin> socket_listeners s k"
      and "k < next_sock s"
  shows "notified_by k cs s \<le> 1
       \<and> (disconnectionListener s \<noteq> None \<and> CallSetDisconnectionListener None \<notin> set cs
            \<and> Emit k Close \<in> set cs
          \<longrightarrow> notified_by k cs s = 1)
       \<and> set (listener_calls (new_effects s (run cs s))) \<subseteq> {None}"
proof -
  have c: "socket_connected k s" using assms by (simp add: socket_connected_def)
  obtain x where x: "trace (run cs s) = trace s @ x" "set (listener_calls x) \<subseteq> {None}"
    using run_trace by blast
  have "new_effects s (run cs s) = x" using x(1) by (rule new_effects_append)
  then show ?thesis using connected_notified_by [OF c, of cs] x(2) by simp
qed

theorem disconnection_listener_once_witness:
  "notified_by 0 [Emit 0 (Data (response ''resetRouting'' 0 None)), Emit 0 SocketError,
                  Emit 0 Close, Emit 0 Close] configure_pending = 1
   \<and> listener_calls
       (new_effects configure_pending
          (run [Emit 0 (Data (response ''resetRouting'' 0 None)), Emit 0 SocketError,
                Emit 0 Close, Emit 0 Close] configure_pending))
     = [None]"
proof -
  note f = configure_pending_fields
  have h: "OnClose \<in> socket_listeners configure_pending 0"
    "OnConnect \<notin> socket_listeners configure_pending 0"
    "0 < next_sock configure_pending"
    by (simp_all add: f)
  have l: "disconnectionListener configure_pending \<noteq> None" by (simp add: f)
  have calls: "listener_calls
       (new_effects configure_pending
          (run [Emit 0 (Data (response ''resetRouting'' 0 None)), Emit 0 SocketError,
                Emit 0 Close, Emit 0 Close] configure_pending))
     = [None]"
    by (simp add: new_effects_def f response_def routing_defs routing_consts)
  show ?thesis
    using disconnection_listener_once [OF h,
        of "[Emit 0 (Data (response ''resetRouting'' 0 None)), Emit 0 SocketError,
             Emit 0 Close, Emit 0 Close]"] l calls
    by simp
qed

end
